theory Spec2Isabelle
  imports Main
begin

section \<open>Data model\<close>

text \<open>
  The driver of \<^verbatim>\<open>src/autonx.py\<close> (class \<^verbatim>\<open>NSHDriver\<close>) talks to a console through
  \<^verbatim>\<open>sendline\<close> and \<^verbatim>\<open>expect\<close>. The console hands back \<^verbatim>\<open>bytes\<close>; the driver decodes them
  to a Python \<^verbatim>\<open>str\<close>, a sequence of Unicode code points. Bytes are modelled as \<open>char\<close>
  (eight bits), code points as natural numbers.
\<close>

type_synonym bytes = "char list"
type_synonym str = "nat list"

definition ascii :: "string \<Rightarrow> str" where
  "ascii cs = map of_char cs"

text \<open>
  The exceptions that can travel through the driver: the console's timeout, a failure of
  the underlying channel (\<^verbatim>\<open>ExecutionError\<close> in \<^verbatim>\<open>SimConsoleDriver._read\<close>), the decoding
  error of \<^verbatim>\<open>bytes.decode\<close>, the \<^verbatim>\<open>TypeError\<close> of unpacking \<^verbatim>\<open>None\<close>, and the
  \<^verbatim>\<open>StateError\<close> that the decorator \<^verbatim>\<open>Driver.check_active\<close> raises.
\<close>

datatype error = TimeoutError | TransportError | UnicodeDecodeError | TypeError | StateError

subsection \<open>The console\<close>

text \<open>
  The console is an external collaborator. What it answers may depend on everything the
  driver has done so far, so its behaviour is a function of the interaction history, the
  current request being the last entry. \<open>expect_reply\<close> gives either the exception raised or
  the bytes before the match (the only component of the returned tuple the driver reads).
  An \<open>expect\<close> without a timeout argument carries \<open>None\<close>. The driver only passes
  timeouts on; they are modelled as integers.
\<close>

datatype io_event = is_SendLine: SendLine str | is_Expect: Expect str "int option"

record console =
  sendline_reply :: "io_event list \<Rightarrow> error option"
  expect_reply :: "io_event list \<Rightarrow> error + bytes"
  io_log :: "io_event list"

definition sendline :: "str \<Rightarrow> console \<Rightarrow> (error + unit) \<times> console" where
  "sendline line c =
     (let h = io_log c @ [SendLine line]
      in (case sendline_reply c h of None \<Rightarrow> Inr () | Some e \<Rightarrow> Inl e, c\<lparr>io_log := h\<rparr>))"

definition expect :: "str \<Rightarrow> int option \<Rightarrow> console \<Rightarrow> (error + bytes) \<times> console" where
  "expect pattern timeout c =
     (let h = io_log c @ [Expect pattern timeout]
      in (expect_reply c h, c\<lparr>io_log := h\<rparr>))"

subsection \<open>The driver\<close>

text \<open>
  The attributes of \<^verbatim>\<open>NSHDriver\<close>; \<open>status\<close> is \<^verbatim>\<open>_status\<close> (0 inactive, 1 shell),
  \<open>logged\<close> collects the arguments of the \<^verbatim>\<open>logger.error\<close> calls. \<open>active\<close> is the binding
  state that the driver inherits from the framework's \<^verbatim>\<open>Driver\<close>: true when it is
  \<^verbatim>\<open>BindingState.active\<close>. The framework writes it, around \<^verbatim>\<open>on_activate\<close> and
  \<^verbatim>\<open>on_deactivate\<close>; the methods of \<^verbatim>\<open>NSHDriver\<close> never do, and only the decorator
  \<^verbatim>\<open>Driver.check_active\<close> of \<^verbatim>\<open>run\<close> reads it.
\<close>

record nsh_driver =
  login_timeout :: int
  boot_expression :: str
  prompt :: str
  init_commands :: "str list"
  status :: int
  console :: console
  logged :: "(int \<times> str list) list"
  active :: bool

type_synonym command_result = "str list \<times> str list \<times> int"

section \<open>The escape-sequence filter\<close>

text \<open>
  \<^verbatim>\<open>re.compile(r"(\x1b\[|\x9b)[^@-_a-z]*[@-_a-z]|\x1b[@-_a-z]")\<close>.
  \<open>is_final\<close> is the class \<^verbatim>\<open>[@-_a-z]\<close>.
\<close>

definition is_final :: "nat \<Rightarrow> bool" where
  "is_final c \<longleftrightarrow> (0x40 \<le> c \<and> c \<le> 0x5f) \<or> (0x61 \<le> c \<and> c \<le> 0x7a)"

text \<open>
  \<^verbatim>\<open>[^@-_a-z]*[@-_a-z]\<close>: the greedy star takes every code point outside the class, and
  giving some back never helps, since what it gives back is outside the class. The result is
  the text after the match.
\<close>

fun csi_body :: "str \<Rightarrow> str option" where
  "csi_body [] = None"
| "csi_body (c # cs) = (if is_final c then Some cs else csi_body cs)"

text \<open>
  A match of the whole pattern at the head of the text, first alternative first. When the
  first alternative fails after \<^verbatim>\<open>\x1b[\<close>, the second still matches, the bracket being in
  \<^verbatim>\<open>[@-_a-z]\<close>.
\<close>

fun match_vt100 :: "str \<Rightarrow> str option" where
  "match_vt100 [] = None"
| "match_vt100 [c] = None"
| "match_vt100 (c # d # cs) =
     (if c = 0x1b \<and> d = 0x5b then
        (case csi_body cs of Some r \<Rightarrow> Some r | None \<Rightarrow> Some cs)
      else if c = 0x9b then csi_body (d # cs)
      else if c = 0x1b \<and> is_final d then Some cs
      else None)"

text \<open>
  \<^verbatim>\<open>pattern.sub("", s, count=n)\<close> for \<open>n > 0\<close>: scan from the left, remove each match, stop
  replacing after \<open>n\<close> of them.
\<close>

function re_vt100_sub :: "nat \<Rightarrow> str \<Rightarrow> str" where
  "re_vt100_sub n [] = []"
| "re_vt100_sub n (c # cs) =
     (if n = 0 then c # cs
      else (case match_vt100 (c # cs) of
              Some r \<Rightarrow> re_vt100_sub (n - 1) r
            | None \<Rightarrow> c # re_vt100_sub n cs))"
  by pat_completeness auto
termination
proof (relation "measure (\<lambda>(n, s). length s)")
  show "wf (measure (\<lambda>(n, s). length s))" by simp
next
  fix n :: nat and c :: nat and cs r :: str
  assume m: "match_vt100 (c # cs) = Some r"
  have body: "\<And>xs ys. csi_body xs = Some ys \<Longrightarrow> length ys < length xs"
  proof -
    fix xs ys show "csi_body xs = Some ys \<Longrightarrow> length ys < length xs"
      by (induction xs) (auto split: if_splits)
  qed
  have "length r < length (c # cs)"
  proof (cases cs)
    case Nil
    with m show ?thesis by simp
  next
    case (Cons d ds)
    with m show ?thesis
      by (auto split: if_splits option.splits dest: body)
  qed
  then show "((n - 1, r), (n, c # cs)) \<in> measure (\<lambda>(n, s). length s)" by simp
next
  fix n :: nat and c :: nat and cs :: str
  show "((n, cs), (n, c # cs)) \<in> measure (\<lambda>(n, s). length s)" by simp
qed

definition vt100_filter :: "str \<Rightarrow> str" where
  "vt100_filter s = re_vt100_sub 1000000 s"

section \<open>Decoding and splitting the captured bytes\<close>

text \<open>
  \<^verbatim>\<open>before.decode("utf-8")\<close> with the default error handler \<^verbatim>\<open>strict\<close>: well-formed
  UTF-8 only (no overlong forms, no surrogates, nothing above U+10FFFF); \<open>None\<close> stands for
  \<^verbatim>\<open>UnicodeDecodeError\<close>.
\<close>

definition is_cont :: "char \<Rightarrow> bool" where
  "is_cont b \<longleftrightarrow> 0x80 \<le> (of_char b :: nat) \<and> (of_char b :: nat) \<le> 0xbf"

definition cont_bits :: "char \<Rightarrow> nat" where
  "cont_bits b = of_char b - 0x80"

fun decode_utf8 :: "bytes \<Rightarrow> str option" where
  "decode_utf8 [] = Some []"
| "decode_utf8 (b # bs) =
     (let v = (of_char b :: nat) in
      if v < 0x80 then map_option (Cons v) (decode_utf8 bs)
      else if 0xc2 \<le> v \<and> v \<le> 0xdf then
        (case bs of
           b1 # r \<Rightarrow>
             if is_cont b1
             then map_option (Cons ((v - 0xc0) * 64 + cont_bits b1)) (decode_utf8 r)
             else None
         | _ \<Rightarrow> None)
      else if 0xe0 \<le> v \<and> v \<le> 0xef then
        (case bs of
           b1 # b2 # r \<Rightarrow>
             if (if v = 0xe0 then 0xa0 else 0x80) \<le> (of_char b1 :: nat)
                \<and> (of_char b1 :: nat) \<le> (if v = 0xed then 0x9f else 0xbf)
                \<and> is_cont b2
             then map_option (Cons ((v - 0xe0) * 4096 + cont_bits b1 * 64 + cont_bits b2))
                    (decode_utf8 r)
             else None
         | _ \<Rightarrow> None)
      else if 0xf0 \<le> v \<and> v \<le> 0xf4 then
        (case bs of
           b1 # b2 # b3 # r \<Rightarrow>
             if (if v = 0xf0 then 0x90 else 0x80) \<le> (of_char b1 :: nat)
                \<and> (of_char b1 :: nat) \<le> (if v = 0xf4 then 0x8f else 0xbf)
                \<and> is_cont b2 \<and> is_cont b3
             then map_option
                    (Cons ((v - 0xf0) * 262144 + cont_bits b1 * 4096 + cont_bits b2 * 64
                           + cont_bits b3))
                    (decode_utf8 r)
             else None
         | _ \<Rightarrow> None)
      else None)"

text \<open>\<^verbatim>\<open>s.split("\n")\<close>: always at least one piece.\<close>

fun split_nl :: "str \<Rightarrow> str list" where
  "split_nl [] = [[]]"
| "split_nl (c # cs) =
     (if c = 0x0a then [] # split_nl cs
      else (case split_nl cs of l # ls \<Rightarrow> (c # l) # ls | [] \<Rightarrow> [[c]]))"

text \<open>
  Lines 86-90 and 102-106 of the source, the same expression twice:
  \<^verbatim>\<open>self.re_vt100.sub("", before.decode("utf-8"), count=1000000).replace("\r", "").split("\n")\<close>.
\<close>

definition captured_lines :: "bytes \<Rightarrow> str list option" where
  "captured_lines bef =
     map_option (\<lambda>t. split_nl (filter (\<lambda>c. c \<noteq> 0x0d) (vt100_filter t))) (decode_utf8 bef)"

section \<open>Parsing the exit status\<close>

text \<open>
  \<^verbatim>\<open>int(s)\<close> on a \<^verbatim>\<open>str\<close>: surrounding white space is dropped, a sign may follow, then
  decimal digits with single underscores between them. Digits are the decimal digits of
  Unicode (here the ten-digit blocks of Unicode 14, given by their zeros); more than 4300 digits
  are refused (the interpreter's default limit). \<open>None\<close> stands for \<^verbatim>\<open>ValueError\<close>.
\<close>

definition py_isspace :: "nat \<Rightarrow> bool" where
  "py_isspace c \<longleftrightarrow>
     (0x09 \<le> c \<and> c \<le> 0x0d) \<or> c = 0x20 \<or> c = 0x85 \<or> c = 0xa0 \<or> c = 0x1680
     \<or> (0x2000 \<le> c \<and> c \<le> 0x200a) \<or> c = 0x2028 \<or> c = 0x2029 \<or> c = 0x202f
     \<or> c = 0x205f \<or> c = 0x3000"

definition decimal_zeros :: "nat list" where
  "decimal_zeros =
     [0x30, 0x660, 0x6f0, 0x7c0, 0x966, 0x9e6, 0xa66, 0xae6, 0xb66, 0xbe6, 0xc66, 0xce6,
      0xd66, 0xde6, 0xe50, 0xed0, 0xf20, 0x1040, 0x1090, 0x17e0, 0x1810, 0x1946, 0x19d0,
      0x1a80, 0x1a90, 0x1b50, 0x1bb0, 0x1c40, 0x1c50, 0xa620, 0xa8d0, 0xa900, 0xa9d0,
      0xa9f0, 0xaa50, 0xabf0, 0xff10, 0x104a0, 0x10d30, 0x11066, 0x110f0, 0x11136,
      0x111d0, 0x112f0, 0x11450, 0x114d0, 0x11650, 0x116c0, 0x11730, 0x118e0, 0x11950,
      0x11c50, 0x11d50, 0x11da0, 0x16a60, 0x16ac0, 0x16b50, 0x1d7ce, 0x1d7d8, 0x1d7e2,
      0x1d7ec, 0x1d7f6, 0x1e140, 0x1e2f0, 0x1e950, 0x1fbf0]"

definition decimal_value :: "nat \<Rightarrow> nat option" where
  "decimal_value c =
     (case find (\<lambda>z. z \<le> c \<and> c < z + 10) decimal_zeros of
        Some z \<Rightarrow> Some (c - z)
      | None \<Rightarrow> None)"

fun parse_digits :: "int \<Rightarrow> str \<Rightarrow> int option" where
  "parse_digits acc [] = None"
| "parse_digits acc (c # cs) =
     (case decimal_value c of
        None \<Rightarrow> None
      | Some d \<Rightarrow>
          (case cs of
             [] \<Rightarrow> Some (acc * 10 + int d)
           | c' # cs' \<Rightarrow>
               if c' = 0x5f then parse_digits (acc * 10 + int d) cs'
               else parse_digits (acc * 10 + int d) cs))"

definition strip :: "str \<Rightarrow> str" where
  "strip s = rev (dropWhile py_isspace (rev (dropWhile py_isspace s)))"

definition py_int :: "str \<Rightarrow> int option" where
  "py_int s =
     (let t = strip s;
          (sign, ds) = (case t of
                          c # r \<Rightarrow> if c = 0x2d then (- 1, r)
                                   else if c = 0x2b then (1, r) else (1 :: int, t)
                        | [] \<Rightarrow> (1, t))
      in if 4300 < length (filter (\<lambda>c. decimal_value c \<noteq> None) ds) then None
         else map_option (\<lambda>v. sign * v) (parse_digits 0 ds))"

text \<open>
  \<^verbatim>\<open>re.compile(r"nsh: .*: ").match(line)\<close>: the line starts with \<^verbatim>\<open>nsh: \<close> and a colon
  followed by a space comes later, before any line feed (the dot does not match one).
\<close>

fun has_colon_space :: "str \<Rightarrow> bool" where
  "has_colon_space [] = False"
| "has_colon_space [c] = False"
| "has_colon_space (c # d # cs) = ((c = 0x3a \<and> d = 0x20) \<or> has_colon_space (d # cs))"

definition r_not_found_match :: "str \<Rightarrow> bool" where
  "r_not_found_match line \<longleftrightarrow>
     take 5 line = ascii ''nsh: ''
     \<and> has_colon_space (takeWhile (\<lambda>c. c \<noteq> 0x0a) (drop 5 line))"

section \<open>The command executor\<close>

text \<open>
  The body of the \<^verbatim>\<open>try\<close> of \<^verbatim>\<open>_run\<close> (lines 97-110). The bare \<^verbatim>\<open>except\<close> catches
  whatever is raised in it: a failing \<^verbatim>\<open>sendline\<close>, a timeout of \<^verbatim>\<open>expect\<close>, a decoding
  error, the \<^verbatim>\<open>IndexError\<close> of \<^verbatim>\<open>ret_data[-2]\<close> and the \<^verbatim>\<open>ValueError\<close> of \<^verbatim>\<open>int\<close>. \<open>None\<close>
  is the way through the handler.
\<close>

definition echo_status :: "int \<Rightarrow> nsh_driver \<Rightarrow> int option \<times> nsh_driver" where
  "echo_status timeout s =
     (case sendline (ascii ''echo $?'') (console s) of
        (Inl e, c1) \<Rightarrow> (None, s\<lparr>console := c1\<rparr>)
      | (Inr u, c1) \<Rightarrow>
          (case expect (prompt s) (Some timeout) c1 of
             (Inl e, c2) \<Rightarrow> (None, s\<lparr>console := c2\<rparr>)
           | (Inr bef, c2) \<Rightarrow>
               (case captured_lines bef of
                  None \<Rightarrow> None
                | Some ret_data \<Rightarrow>
                    if length ret_data < 2 then None
                    else py_int (ret_data ! (length ret_data - 2)),
                s\<lparr>console := c2\<rparr>)))"

text \<open>
  \<^verbatim>\<open>_run\<close>. \<open>Inr None\<close> is the \<^verbatim>\<open>None\<close> returned when the driver is not in command-line
  mode. \<^verbatim>\<open>data[1:-1]\<close> is \<open>butlast (tl data)\<close> at every length. The tuple with 255 is bound
  to \<^verbatim>\<open>rsp\<close>, which the source never reads.
\<close>

definition run_impl ::
  "str \<Rightarrow> int \<Rightarrow> str \<Rightarrow> str \<Rightarrow> nsh_driver \<Rightarrow> (error + command_result option) \<times> nsh_driver" where
  "run_impl cmd timeout codec decodeerrors s =
     (if status s \<noteq> 1 then (Inr None, s)
      else
        (case sendline cmd (console s) of
           (Inl e, c1) \<Rightarrow> (Inl e, s\<lparr>console := c1\<rparr>)
         | (Inr u, c1) \<Rightarrow>
             (case expect (prompt s) (Some timeout) c1 of
                (Inl e, c2) \<Rightarrow> (Inl e, s\<lparr>console := c2\<rparr>)
              | (Inr bef, c2) \<Rightarrow>
                  (case captured_lines bef of
                     None \<Rightarrow> (Inl UnicodeDecodeError, s\<lparr>console := c2\<rparr>)
                   | Some ls \<Rightarrow>
                       (let data = butlast (tl ls) in
                        (case echo_status timeout (s\<lparr>console := c2\<rparr>) of
                           (Some n, s') \<Rightarrow> (Inr (Some (data, [], n)), s')
                         | (None, s') \<Rightarrow>
                             (let rsp = (if data \<noteq> [] \<and> r_not_found_match (last data)
                                         then Some (data, [] :: str list, 255 :: int)
                                         else None)
                              in (Inr (Some (data, [], - 1)), s'))))))))"

text \<open>
  The public \<^verbatim>\<open>run\<close> (lines 130-133). Its decorator \<^verbatim>\<open>Driver.check_active\<close> raises
  \<^verbatim>\<open>StateError\<close> unless the driver's binding state is active, before the body is entered;
  the body hands the arguments to \<^verbatim>\<open>_run\<close>. The decorator \<^verbatim>\<open>step\<close> only reports the call.
\<close>

definition run ::
  "str \<Rightarrow> int \<Rightarrow> str \<Rightarrow> str \<Rightarrow> nsh_driver \<Rightarrow> (error + command_result option) \<times> nsh_driver" where
  "run cmd timeout codec decodeerrors s =
     (if \<not> active s then (Inl StateError, s)
      else run_impl cmd timeout codec decodeerrors s)"

section \<open>Synchronisation and the activation life cycle\<close>

text \<open>
  The loop of \<^verbatim>\<open>_await_prompt\<close> over \<^verbatim>\<open>init_commands\<close>: each command runs through
  \<^verbatim>\<open>_run\<close> with its default arguments; a status other than 0 is logged and the loop goes
  on; an exception ends it. Unpacking a \<^verbatim>\<open>None\<close> result would be a \<^verbatim>\<open>TypeError\<close>.
\<close>

fun run_init :: "str list \<Rightarrow> nsh_driver \<Rightarrow> (error + unit) \<times> nsh_driver" where
  "run_init [] s = (Inr (), s)"
| "run_init (command # rest) s =
     (case run_impl command 30 (ascii ''utf-8'') (ascii ''strict'') s of
        (Inl e, s') \<Rightarrow> (Inl e, s')
      | (Inr None, s') \<Rightarrow> (Inl TypeError, s')
      | (Inr (Some (out, aux, err)), s') \<Rightarrow>
          run_init rest (if err \<noteq> 0 then s'\<lparr>logged := logged s' @ [(err, out)]\<rparr> else s'))"

definition await_prompt :: "nsh_driver \<Rightarrow> (error + unit) \<times> nsh_driver" where
  "await_prompt s =
     (case expect (boot_expression s) (Some (login_timeout s)) (console s) of
        (Inl e, c1) \<Rightarrow> (Inl e, s\<lparr>console := c1\<rparr>)
      | (Inr b, c1) \<Rightarrow>
          (let s1 = s\<lparr>console := c1, status := 1\<rparr> in
           (case expect (prompt s1) None (console s1) of
              (Inl e, c2) \<Rightarrow> (Inl e, s1\<lparr>console := c2\<rparr>)
            | (Inr b', c2) \<Rightarrow> run_init (init_commands s1) (s1\<lparr>console := c2\<rparr>))))"

definition on_activate :: "nsh_driver \<Rightarrow> (error + unit) \<times> nsh_driver" where
  "on_activate s = (if status s = 0 then await_prompt s else (Inr (), s))"

definition on_deactivate :: "nsh_driver \<Rightarrow> nsh_driver" where
  "on_deactivate s = s\<lparr>status := 0\<rparr>"

definition get_status :: "nsh_driver \<Rightarrow> int" where
  "get_status s = status s"

section \<open>Consoles and drivers for concrete runs\<close>

text \<open>
  A console that answers its successive \<open>expect\<close> calls from a list, times out once the list
  is used up, and accepts every line sent.
\<close>

definition scripted :: "(error + bytes) list \<Rightarrow> io_event list \<Rightarrow> error + bytes" where
  "scripted rs h =
     (let k = length (filter is_Expect h)
      in if 0 < k \<and> k \<le> length rs then rs ! (k - 1) else Inl TimeoutError)"

definition scripted_console :: "(error + bytes) list \<Rightarrow> console" where
  "scripted_console rs =
     \<lparr>sendline_reply = (\<lambda>h. None), expect_reply = scripted rs, io_log = []\<rparr>"

definition crlf :: bytes where
  "crlf = [CHR 0x0D, CHR 0x0A]"

text \<open>
  The driver with its default configuration, in the given status. Its binding is active
  exactly when the status is 1: as the framework has it before an activation (status 0, not
  active) and after a successful one (status 1, active).
\<close>

definition default_driver :: "int \<Rightarrow> console \<Rightarrow> nsh_driver" where
  "default_driver st c =
     \<lparr>login_timeout = 60,
      boot_expression = ascii ''NuttShell '' @ [0x5c] @ ascii ''(NSH'' @ [0x5c] @ ascii '') NuttX'',
      prompt = ascii ''nsh> '', init_commands = [], status = st, console = c, logged = [],
      active = (st = 1)\<rparr>"

text \<open>
  Captured bytes of the scenarios: the echo of \<^verbatim>\<open>echo OK\<close> with its output, the answer
  \<^verbatim>\<open>0\<close> to \<^verbatim>\<open>echo $?\<close>, a command the shell does not know, and a shell that prints
  \<^verbatim>\<open>$?\<close> back instead of a number.
\<close>

definition echo_ok_reply :: bytes where
  "echo_ok_reply = ''echo OK'' @ crlf @ ''OK'' @ crlf"


definition not_found_reply :: bytes where
  "not_found_reply = ''foo'' @ crlf @ ''nsh: foo: command not found'' @ crlf"

definition no_status_reply :: bytes where
  "no_status_reply = ''echo $?'' @ crlf @ ''$?'' @ crlf"

text \<open>
  A console on which the banner appears at once and the prompt after a line break; nothing
  matches after that.
\<close>

definition booted_console :: console where
  "booted_console = scripted_console [Inr [], Inr crlf]"

section \<open>Sequences of calls\<close>

text \<open>
  What can happen to a driver: a call of \<^verbatim>\<open>on_activate\<close>, of \<^verbatim>\<open>on_deactivate\<close> or of
  \<^verbatim>\<open>run\<close>, and the framework writing the binding state (\<open>Bind True\<close> for active). The
  driver after a sequence of these: an exception ends the call that raised it, and the driver
  object stays as that call left it.
\<close>

datatype call = Activate | Deactivate | Run str int str str | Bind bool

fun do_call :: "call \<Rightarrow> nsh_driver \<Rightarrow> nsh_driver" where
  "do_call Activate s = snd (on_activate s)"
| "do_call Deactivate s = on_deactivate s"
| "do_call (Run cmd timeout codec decodeerrors) s = snd (run cmd timeout codec decodeerrors s)"
| "do_call (Bind b) s = s\<lparr>active := b\<rparr>"

fun after_calls :: "call list \<Rightarrow> nsh_driver \<Rightarrow> nsh_driver" where
  "after_calls [] s = s"
| "after_calls (c # cs) s = after_calls cs (do_call c s)"

text \<open>
  The console's log holds a wait for the boot expression, with the login timeout, that the
  console answered with a match.
\<close>

definition boot_matched :: "nsh_driver \<Rightarrow> bool" where
  "boot_matched s =
     list_ex (\<lambda>i. io_log (console s) ! i = Expect (boot_expression s) (Some (login_timeout s))
                  \<and> \<not> isl (expect_reply (console s) (take (Suc i) (io_log (console s)))))
       [0..<length (io_log (console s))]"

text \<open>The driver with further events in its console's log, nothing else changed.\<close>

definition logs :: "nsh_driver \<Rightarrow> io_event list \<Rightarrow> nsh_driver" where
  "logs s ev = s\<lparr>console := (console s)\<lparr>io_log := io_log (console s) @ ev\<rparr>\<rparr>"

section \<open>Predicates on filter inputs\<close>

text \<open>No ESC (U+001B) is directly followed by an ESC or by a CSI (U+009B).\<close>

fun esc_pair_free :: "str \<Rightarrow> bool" where
  "esc_pair_free [] = True"
| "esc_pair_free [c] = True"
| "esc_pair_free (c # d # cs) =
     (\<not> (c = 0x1b \<and> (d = 0x1b \<or> d = 0x9b)) \<and> esc_pair_free (d # cs))"

text \<open>
  The number of matches an unbounded \<^verbatim>\<open>sub\<close> would replace: the scan of \<open>re_vt100_sub\<close>,
  counting.
\<close>

function count_vt100 :: "str \<Rightarrow> nat" where
  "count_vt100 [] = 0"
| "count_vt100 (c # cs) =
     (case match_vt100 (c # cs) of
        Some r \<Rightarrow> Suc (count_vt100 r)
      | None \<Rightarrow> count_vt100 cs)"
  by pat_completeness auto
termination
proof (relation "measure length")
  show "wf (measure length)" by simp
next
  fix c :: nat and cs r :: str
  assume m: "match_vt100 (c # cs) = Some r"
  have body: "\<And>xs ys. csi_body xs = Some ys \<Longrightarrow> length ys < length xs"
  proof -
    fix xs ys show "csi_body xs = Some ys \<Longrightarrow> length ys < length xs"
      by (induction xs) (auto split: if_splits)
  qed
  have "length r < length (c # cs)"
  proof (cases cs)
    case Nil
    with m show ?thesis by simp
  next
    case (Cons d ds)
    with m show ?thesis
      by (auto split: if_splits option.splits dest: body)
  qed
  then show "(r, c # cs) \<in> measure length" by simp
next
  fix c :: nat and cs :: str
  show "(cs, c # cs) \<in> measure length" by simp
qed

text \<open>The pattern matches at no position of the text.\<close>

fun sequence_free :: "str \<Rightarrow> bool" where
  "sequence_free [] = True"
| "sequence_free (c # cs) = (match_vt100 (c # cs) = None \<and> sequence_free cs)"

section \<open>Evaluation lemmas\<close>

lemmas io_simps = sendline_def expect_def scripted_console_def scripted_def default_driver_def

lemma decode_invalid: "decode_utf8 [CHR 0xFF] = None"
  by simp

lemma activate_booted:
  "on_activate (default_driver 0 booted_console)
     = (Inr (), (default_driver 0 (booted_console
          \<lparr>io_log := [Expect (boot_expression (default_driver 0 booted_console)) (Some 60),
                      Expect (ascii ''nsh> '') None]\<rparr>))\<lparr>status := 1\<rparr>)"
  by (simp add: on_activate_def await_prompt_def booted_console_def io_simps)


lemma captured_echo_ok:
  "captured_lines echo_ok_reply = Some [ascii ''echo OK'', ascii ''OK'', []]"
  by (simp add: echo_ok_reply_def captured_lines_def vt100_filter_def ascii_def crlf_def
      is_final_def)


lemma captured_not_found:
  "captured_lines not_found_reply
     = Some [ascii ''foo'', ascii ''nsh: foo: command not found'', []]"
  by (simp add: not_found_reply_def captured_lines_def vt100_filter_def ascii_def crlf_def
      is_final_def)

lemma captured_no_status:
  "captured_lines no_status_reply = Some [ascii ''echo $?'', ascii ''$?'', []]"
  by (simp add: no_status_reply_def captured_lines_def vt100_filter_def ascii_def crlf_def
      is_final_def)


lemma decimal_value_dollar: "decimal_value 0x24 = None"
  by (simp add: decimal_value_def decimal_zeros_def)

lemma py_int_dollar: "py_int (ascii ''$?'') = None"
  by (simp add: py_int_def strip_def py_isspace_def decimal_value_dollar ascii_def)

lemma not_found_line_matches: "r_not_found_match (ascii ''nsh: foo: command not found'')"
  by (simp add: r_not_found_match_def ascii_def)

section \<open>Properties of the filter\<close>

lemma match_vt100_plain:
  "c \<noteq> 0x1b \<Longrightarrow> c \<noteq> 0x9b \<Longrightarrow> match_vt100 (c # cs) = None"
  by (cases cs) simp_all

lemma re_vt100_sub_plain:
  "0x1b \<notin> set s \<Longrightarrow> 0x9b \<notin> set s \<Longrightarrow> re_vt100_sub n s = s"
  by (induction s) (auto simp add: match_vt100_plain)

lemma csi_body_None_iff: "csi_body xs = None \<longleftrightarrow> (\<forall>x\<in>set xs. \<not> is_final x)"
  by (induction xs) auto

lemma csi_body_suffix: "csi_body xs = Some r \<Longrightarrow> \<exists>p. xs = p @ r"
proof (induction xs)
  case Nil
  then show ?case by simp
next
  case (Cons x xs)
  show ?case
  proof (cases "is_final x")
    case True
    with Cons.prems have "x # xs = [x] @ r" by simp
    then show ?thesis by blast
  next
    case False
    with Cons obtain p where "xs = p @ r" by auto
    then have "x # xs = (x # p) @ r" by simp
    then show ?thesis by blast
  qed
qed

lemma match_vt100_suffix:
  assumes "match_vt100 s = Some r" shows "\<exists>p. s = p @ r"
proof (cases s)
  case Nil
  with assms show ?thesis by simp
next
  case (Cons c cs)
  show ?thesis
  proof (cases cs)
    case Nil
    with assms Cons show ?thesis by simp
  next
    case (Cons d ds)
    note s = \<open>s = c # cs\<close> Cons
    consider (a) "c = 0x1b" "d = 0x5b" | (b) "\<not> (c = 0x1b \<and> d = 0x5b)" "c = 0x9b"
      | (e) "\<not> (c = 0x1b \<and> d = 0x5b)" "c \<noteq> 0x9b" by blast
    then show ?thesis
    proof cases
      case a
      show ?thesis
      proof (cases "csi_body ds")
        case None
        with assms s a have "s = [c, d] @ r" by simp
        then show ?thesis by blast
      next
        case (Some r')
        with assms s a have "r' = r" by simp
        with Some obtain p where "ds = p @ r" using csi_body_suffix by blast
        with s have "s = (c # d # p) @ r" by simp
        then show ?thesis by blast
      qed
    next
      case b
      with assms s have "csi_body (d # ds) = Some r" by simp
      then obtain p where "d # ds = p @ r" using csi_body_suffix by blast
      with s have "s = (c # p) @ r" by simp
      then show ?thesis by blast
    next
      case e
      with assms s have "s = [c, d] @ r" by (simp split: if_splits)
      then show ?thesis by blast
    qed
  qed
qed

lemma re_vt100_sub_subset: "set (re_vt100_sub n s) \<subseteq> set s"
proof (induction n s rule: re_vt100_sub.induct)
  case (1 n)
  then show ?case by simp
next
  case (2 n c cs)
  show ?case
  proof (cases "n = 0")
    case True
    then show ?thesis by simp
  next
    case False
    show ?thesis
    proof (cases "match_vt100 (c # cs)")
      case None
      with False 2 show ?thesis by auto
    next
      case (Some r)
      then obtain p where "c # cs = p @ r" using match_vt100_suffix by blast
      then have "set r \<subseteq> set (c # cs)" by (metis set_append Un_upper2)
      with False Some 2 show ?thesis by auto
    qed
  qed
qed

lemma sequence_free_fixed: "sequence_free t \<Longrightarrow> re_vt100_sub m t = t"
  by (induction t) auto

lemma esc_pair_free_tl: "esc_pair_free (c # cs) \<Longrightarrow> esc_pair_free cs"
  by (cases cs) simp_all

lemma esc_pair_free_suffix: "esc_pair_free (p @ r) \<Longrightarrow> esc_pair_free r"
  by (induction p) (auto dest: esc_pair_free_tl)

lemma count_zero_sequence_free: "count_vt100 s = 0 \<Longrightarrow> sequence_free s"
  by (induction s rule: count_vt100.induct) (auto split: option.splits)


lemma match_vt100_csi: "match_vt100 (0x9b # xs) = csi_body xs"
  by (cases xs) simp_all

lemma re_vt100_sub_sequence_free:
  "esc_pair_free s \<Longrightarrow> count_vt100 s \<le> n \<Longrightarrow> sequence_free (re_vt100_sub n s)"
proof (induction n s rule: re_vt100_sub.induct)
  case (1 n)
  then show ?case by simp
next
  case (2 n c cs)
  show ?case
  proof (cases "n = 0")
    case True
    with "2.prems" have "sequence_free (c # cs)"
      by (intro count_zero_sequence_free) simp
    with True show ?thesis by simp
  next
    case pos: False
    show ?thesis
    proof (cases "match_vt100 (c # cs)")
      case (Some r)
      then obtain p where "c # cs = p @ r" using match_vt100_suffix by blast
      with "2.prems" have "esc_pair_free r" by (metis esc_pair_free_suffix)
      moreover from "2.prems" Some pos have "count_vt100 r \<le> n - 1" by simp
      ultimately have "sequence_free (re_vt100_sub (n - 1) r)"
        using "2.IH" pos Some by blast
      with pos Some show ?thesis by simp
    next
      case None
      from "2.prems"(1) have "esc_pair_free cs" by (rule esc_pair_free_tl)
      moreover from "2.prems" None have "count_vt100 cs \<le> n" by simp
      ultimately have rest: "sequence_free (re_vt100_sub n cs)"
        using "2.IH" pos None by blast
      have "match_vt100 (c # re_vt100_sub n cs) = None"
      proof -
        consider (plain) "c \<noteq> 0x1b" "c \<noteq> 0x9b" | (csi) "c = 0x9b" | (esc) "c = 0x1b"
          by blast
        then show ?thesis
        proof cases
          case plain
          then show ?thesis by (rule match_vt100_plain)
        next
          case csi
          with None have "csi_body cs = None" by (simp add: match_vt100_csi)
          then have "\<forall>x\<in>set cs. \<not> is_final x" by (simp add: csi_body_None_iff)
          with re_vt100_sub_subset [of n cs]
          have "\<forall>x\<in>set (re_vt100_sub n cs). \<not> is_final x" by blast
          then have "csi_body (re_vt100_sub n cs) = None" by (simp add: csi_body_None_iff)
          with csi show ?thesis by (simp add: match_vt100_csi)
        next
          case esc
          show ?thesis
          proof (cases cs)
            case Nil
            then show ?thesis by simp
          next
            case (Cons d ds)
            with None esc have d: "d \<noteq> 0x5b" "\<not> is_final d"
              by (auto split: if_splits option.splits)
            from "2.prems"(1) esc Cons have d': "d \<noteq> 0x1b" "d \<noteq> 0x9b" by auto
            then have "match_vt100 (d # ds) = None" by (rule match_vt100_plain)
            with pos Cons have "re_vt100_sub n cs = d # re_vt100_sub n ds" by simp
            with esc d show ?thesis by simp
          qed
        qed
      qed
      with rest pos None show ?thesis by simp
    qed
  qed
qed

text \<open>
  C6, as amended. The filter is idempotent on every text in which no ESC is directly followed
  by an ESC or a CSI and which holds at most 1000000 matches of the pattern (the \<^verbatim>\<open>count\<close>
  of the \<^verbatim>\<open>sub\<close> call): filtering the filtered text again changes nothing.
\<close>

theorem filter_idempotent_without_esc_pairs:
  "esc_pair_free s \<Longrightarrow> count_vt100 s \<le> 1000000 \<Longrightarrow>
     vt100_filter (vt100_filter s) = vt100_filter s"
  unfolding vt100_filter_def
  by (rule sequence_free_fixed) (rule re_vt100_sub_sequence_free)

theorem filter_idempotent_without_esc_pairs_witness:
  "esc_pair_free ([0x1b] @ ascii ''[31mHello'' @ [0x1b] @ ascii ''[0m'')
   \<and> count_vt100 ([0x1b] @ ascii ''[31mHello'' @ [0x1b] @ ascii ''[0m'') \<le> 1000000
   \<and> vt100_filter ([0x1b] @ ascii ''[31mHello'' @ [0x1b] @ ascii ''[0m'') = ascii ''Hello''
   \<and> vt100_filter (vt100_filter ([0x1b] @ ascii ''[31mHello'' @ [0x1b] @ ascii ''[0m''))
       = ascii ''Hello''"
  using filter_idempotent_without_esc_pairs
    [of "[0x1b] @ ascii ''[31mHello'' @ [0x1b] @ ascii ''[0m''"]
  by (simp add: vt100_filter_def ascii_def is_final_def)

text \<open>
  C6 as stated fails: removing the inner sequence of \<^verbatim>\<open>\x1b\x1bAB\<close> leaves \<^verbatim>\<open>\x1bB\<close>, which a
  second pass removes.
\<close>

theorem filter_not_idempotent:
  "vt100_filter (vt100_filter [0x1b, 0x1b, 0x41, 0x42]) \<noteq> vt100_filter [0x1b, 0x1b, 0x41, 0x42]"
  by (simp add: vt100_filter_def is_final_def)

text \<open>
  C7. On a text with neither ESC (U+001B) nor CSI (U+009B) the filter is the identity, and
  \<^verbatim>\<open>\x1b[31mHello\x1b[0m\<close> is filtered to \<^verbatim>\<open>Hello\<close>.
\<close>

theorem filter_identity_on_plain:
  "(0x1b \<notin> set s \<and> 0x9b \<notin> set s \<longrightarrow> vt100_filter s = s)
   \<and> vt100_filter ([0x1b] @ ascii ''[31mHello'' @ [0x1b] @ ascii ''[0m'') = ascii ''Hello''"
  by (simp add: vt100_filter_def re_vt100_sub_plain ascii_def is_final_def)

theorem filter_identity_on_plain_witness:
  "0x1b \<notin> set (ascii ''Hello'') \<and> 0x9b \<notin> set (ascii ''Hello'')
   \<and> vt100_filter (ascii ''Hello'') = ascii ''Hello''"
  using filter_identity_on_plain [of "ascii ''Hello''"]
  by (simp add: ascii_def)

section \<open>The readiness gate\<close>

text \<open>
  C4, as amended. While the status is 0 (inactive), \<^verbatim>\<open>_run\<close> returns \<^verbatim>\<open>None\<close>, raises nothing
  and leaves the driver as it was. The public \<open>run\<close> does the same when the driver's binding
  is active; when it is not, the decorator \<^verbatim>\<open>check_active\<close> raises \<^verbatim>\<open>StateError\<close>. Either way
  the console has seen neither a \<^verbatim>\<open>sendline\<close> nor an \<^verbatim>\<open>expect\<close>.
\<close>

theorem run_inactive_not_ready:
  "status s = 0 \<Longrightarrow>
     run_impl cmd timeout codec decodeerrors s = (Inr None, s)
     \<and> run cmd timeout codec decodeerrors s
         = (if active s then (Inr None, s) else (Inl StateError, s))
     \<and> io_log (console (snd (run cmd timeout codec decodeerrors s))) = io_log (console s)"
  by (simp add: run_def run_impl_def)

theorem run_inactive_not_ready_witness:
  "status (default_driver 0 (scripted_console [Inr echo_ok_reply])) = 0
   \<and> status ((default_driver 0 (scripted_console [Inr echo_ok_reply]))\<lparr>active := True\<rparr>) = 0
   \<and> run_impl (ascii ''echo OK'') 30 (ascii ''utf-8'') (ascii ''strict'')
         (default_driver 0 (scripted_console [Inr echo_ok_reply]))
       = (Inr None, default_driver 0 (scripted_console [Inr echo_ok_reply]))
   \<and> run (ascii ''echo OK'') 30 (ascii ''utf-8'') (ascii ''strict'')
         ((default_driver 0 (scripted_console [Inr echo_ok_reply]))\<lparr>active := True\<rparr>)
       = (Inr None, (default_driver 0 (scripted_console [Inr echo_ok_reply]))\<lparr>active := True\<rparr>)
   \<and> run (ascii ''echo OK'') 30 (ascii ''utf-8'') (ascii ''strict'')
         (default_driver 0 (scripted_console [Inr echo_ok_reply]))
       = (Inl StateError, default_driver 0 (scripted_console [Inr echo_ok_reply]))
   \<and> io_log (console (snd (run (ascii ''echo OK'') 30 (ascii ''utf-8'') (ascii ''strict'')
         (default_driver 0 (scripted_console [Inr echo_ok_reply]))))) = []"
  using
    run_inactive_not_ready [of "default_driver 0 (scripted_console [Inr echo_ok_reply])"
      "ascii ''echo OK''" 30 "ascii ''utf-8''" "ascii ''strict''"]
    run_inactive_not_ready
      [of "(default_driver 0 (scripted_console [Inr echo_ok_reply]))\<lparr>active := True\<rparr>"
      "ascii ''echo OK''" 30 "ascii ''utf-8''" "ascii ''strict''"]
  by (simp add: default_driver_def scripted_console_def)

text \<open>
  C4 as stated fails for the public \<open>run\<close>: on a driver that has not been activated (status 0,
  binding not active) it raises \<^verbatim>\<open>StateError\<close> instead of returning \<^verbatim>\<open>None\<close>.
\<close>

theorem run_inactive_raises_state_error:
  "status (default_driver 0 (scripted_console [Inr echo_ok_reply])) = 0
   \<and> \<not> active (default_driver 0 (scripted_console [Inr echo_ok_reply]))
   \<and> run (ascii ''echo OK'') 30 (ascii ''utf-8'') (ascii ''strict'')
         (default_driver 0 (scripted_console [Inr echo_ok_reply]))
       = (Inl StateError, default_driver 0 (scripted_console [Inr echo_ok_reply]))"
  by (simp add: run_def default_driver_def)

section \<open>Running a command\<close>


text \<open>
  C1. The claim asks for exit status 255 when \<^verbatim>\<open>echo $?\<close> gives no number and the last line of
  the command's output matches \<^verbatim>\<open>nsh: .*: \<close>. On such a run the code returns \<open>- 1\<close>: the
  command \<^verbatim>\<open>foo\<close> is answered by \<^verbatim>\<open>nsh: foo: command not found\<close>, which matches the marker
  pattern, and \<^verbatim>\<open>echo $?\<close> by \<^verbatim>\<open>$?\<close>, which is no integer.
\<close>

theorem run_error_marker_gives_minus_one:
  "fst (run (ascii ''foo'') 30 (ascii ''utf-8'') (ascii ''strict'')
          (default_driver 1 (scripted_console [Inr not_found_reply, Inr no_status_reply])))
     = Inr (Some ([ascii ''nsh: foo: command not found''], [], - 1))
   \<and> r_not_found_match (ascii ''nsh: foo: command not found'')
   \<and> py_int (ascii ''$?'') = None"
  by (simp add: run_def run_impl_def echo_status_def sendline_def expect_def
      scripted_console_def scripted_def default_driver_def captured_not_found
      captured_no_status py_int_dollar not_found_line_matches)

lemma run_impl_first_expect_raises:
  "status s = 1 \<Longrightarrow> sendline cmd (console s) = (Inr (), c1) \<Longrightarrow>
   expect (prompt s) (Some timeout) c1 = (Inl e, c2) \<Longrightarrow>
   run_impl cmd timeout codec decodeerrors s = (Inl e, s\<lparr>console := c2\<rparr>)"
  by (simp add: run_impl_def)

lemma run_impl_undecodable:
  "status s = 1 \<Longrightarrow> sendline cmd (console s) = (Inr (), c1) \<Longrightarrow>
   expect (prompt s) (Some timeout) c1 = (Inr bef, c2) \<Longrightarrow> captured_lines bef = None \<Longrightarrow>
   run_impl cmd timeout codec decodeerrors s = (Inl UnicodeDecodeError, s\<lparr>console := c2\<rparr>)"
  by (simp add: run_impl_def)

lemma run_impl_captured:
  "status s = 1 \<Longrightarrow> sendline cmd (console s) = (Inr (), c1) \<Longrightarrow>
   expect (prompt s) (Some timeout) c1 = (Inr bef, c2) \<Longrightarrow> captured_lines bef = Some ls \<Longrightarrow>
   run_impl cmd timeout codec decodeerrors s
     = (Inr (Some (butlast (tl ls), [],
                   case fst (echo_status timeout (s\<lparr>console := c2\<rparr>)) of
                     Some n \<Rightarrow> n | None \<Rightarrow> - 1)),
        snd (echo_status timeout (s\<lparr>console := c2\<rparr>)))"
  by (simp add: run_impl_def Let_def split: prod.splits option.splits)

lemma echo_status_expect_raises:
  "sendline (ascii ''echo $?'') (console s) = (Inr (), c3) \<Longrightarrow>
   expect (prompt s) (Some timeout) c3 = (Inl e, c4) \<Longrightarrow>
   echo_status timeout s = (None, s\<lparr>console := c4\<rparr>)"
  by (simp add: echo_status_def)

lemma echo_status_unparsed:
  "sendline (ascii ''echo $?'') (console s) = (Inr (), c3) \<Longrightarrow>
   expect (prompt s) (Some timeout) c3 = (Inr bef2, c4) \<Longrightarrow>
   captured_lines bef2 = Some ret_data \<Longrightarrow>
   length ret_data < 2 \<or> py_int (ret_data ! (length ret_data - 2)) = None \<Longrightarrow>
   echo_status timeout s = (None, s\<lparr>console := c4\<rparr>)"
  by (auto simp add: echo_status_def)

text \<open>
  C3, as amended. In the ready state of an active driver, once the command has been sent: a
  \<^verbatim>\<open>TimeoutError\<close> of the \<open>expect\<close> that waits for the command's prompt reaches the caller; a
  \<^verbatim>\<open>TimeoutError\<close> of the \<open>expect\<close> of the \<^verbatim>\<open>echo $?\<close> round trip is caught, and the call
  returns a result triple with the command's lines instead of raising.
\<close>

theorem run_timeout_propagation:
  assumes "active s" and "status s = 1" and "sendline cmd (console s) = (Inr (), c1)"
  shows "(expect (prompt s) (Some timeout) c1 = (Inl TimeoutError, c2) \<longrightarrow>
            run cmd timeout codec decodeerrors s = (Inl TimeoutError, s\<lparr>console := c2\<rparr>))
         \<and> (expect (prompt s) (Some timeout) c1 = (Inr bef, c2)
              \<and> captured_lines bef = Some ls
              \<and> sendline (ascii ''echo $?'') c2 = (Inr (), c3)
              \<and> expect (prompt s) (Some timeout) c3 = (Inl TimeoutError, c4) \<longrightarrow>
            (\<exists>n. run cmd timeout codec decodeerrors s
                   = (Inr (Some (butlast (tl ls), [], n)), s\<lparr>console := c4\<rparr>)))"
proof (intro conjI impI)
  assume "expect (prompt s) (Some timeout) c1 = (Inl TimeoutError, c2)"
  with assms show "run cmd timeout codec decodeerrors s = (Inl TimeoutError, s\<lparr>console := c2\<rparr>)"
    by (simp add: run_def run_impl_first_expect_raises)
next
  assume a: "expect (prompt s) (Some timeout) c1 = (Inr bef, c2)
              \<and> captured_lines bef = Some ls
              \<and> sendline (ascii ''echo $?'') c2 = (Inr (), c3)
              \<and> expect (prompt s) (Some timeout) c3 = (Inl TimeoutError, c4)"
  then have "echo_status timeout (s\<lparr>console := c2\<rparr>) = (None, s\<lparr>console := c4\<rparr>)"
    using echo_status_expect_raises [of "s\<lparr>console := c2\<rparr>" c3 timeout TimeoutError c4]
    by simp
  with assms a have "run cmd timeout codec decodeerrors s
              = (Inr (Some (butlast (tl ls), [], - 1)), s\<lparr>console := c4\<rparr>)"
    by (simp add: run_def run_impl_captured)
  then show "\<exists>n. run cmd timeout codec decodeerrors s
              = (Inr (Some (butlast (tl ls), [], n)), s\<lparr>console := c4\<rparr>)" ..
qed

theorem run_timeout_propagation_witness:
  "run (ascii ''echo OK'') 30 (ascii ''utf-8'') (ascii ''strict'')
     (default_driver 1 (scripted_console [Inl TimeoutError]))
   = (Inl TimeoutError,
      default_driver 1 ((scripted_console [Inl TimeoutError])
        \<lparr>io_log := [SendLine (ascii ''echo OK''), Expect (ascii ''nsh> '') (Some 30)]\<rparr>))
   \<and> run (ascii ''echo OK'') 30 (ascii ''utf-8'') (ascii ''strict'')
       (default_driver 1 (scripted_console [Inr echo_ok_reply, Inl TimeoutError]))
     = (Inr (Some ([ascii ''OK''], [], - 1)),
        default_driver 1 ((scripted_console [Inr echo_ok_reply, Inl TimeoutError])
          \<lparr>io_log := [SendLine (ascii ''echo OK''), Expect (ascii ''nsh> '') (Some 30),
                      SendLine (ascii ''echo $?''), Expect (ascii ''nsh> '') (Some 30)]\<rparr>))"
  using
    run_timeout_propagation
      [where s = "default_driver 1 (scripted_console [Inl TimeoutError])"
         and cmd = "ascii ''echo OK''" and timeout = 30
         and codec = "ascii ''utf-8''" and decodeerrors = "ascii ''strict''"
         and ?c1.0 = "(scripted_console [Inl TimeoutError])\<lparr>io_log := [SendLine (ascii ''echo OK'')]\<rparr>"
         and ?c2.0 = "(scripted_console [Inl TimeoutError])
            \<lparr>io_log := [SendLine (ascii ''echo OK''), Expect (ascii ''nsh> '') (Some 30)]\<rparr>"]
    run_timeout_propagation
      [where s = "default_driver 1 (scripted_console [Inr echo_ok_reply, Inl TimeoutError])"
         and cmd = "ascii ''echo OK''" and timeout = 30
         and codec = "ascii ''utf-8''" and decodeerrors = "ascii ''strict''"
         and bef = echo_ok_reply and ls = "[ascii ''echo OK'', ascii ''OK'', []]"
         and ?c1.0 = "(scripted_console [Inr echo_ok_reply, Inl TimeoutError])
            \<lparr>io_log := [SendLine (ascii ''echo OK'')]\<rparr>"
         and ?c2.0 = "(scripted_console [Inr echo_ok_reply, Inl TimeoutError])
            \<lparr>io_log := [SendLine (ascii ''echo OK''), Expect (ascii ''nsh> '') (Some 30)]\<rparr>"
         and ?c3.0 = "(scripted_console [Inr echo_ok_reply, Inl TimeoutError])
            \<lparr>io_log := [SendLine (ascii ''echo OK''), Expect (ascii ''nsh> '') (Some 30),
                        SendLine (ascii ''echo $?'')]\<rparr>"
         and ?c4.0 = "(scripted_console [Inr echo_ok_reply, Inl TimeoutError])
            \<lparr>io_log := [SendLine (ascii ''echo OK''), Expect (ascii ''nsh> '') (Some 30),
                        SendLine (ascii ''echo $?''), Expect (ascii ''nsh> '') (Some 30)]\<rparr>"]
  by (simp add: run_def run_impl_def echo_status_def io_simps captured_echo_ok)

text \<open>
  C3 as stated fails: here the \<open>expect\<close> of the \<^verbatim>\<open>echo $?\<close> round trip ends with
  \<^verbatim>\<open>TimeoutError\<close>, and \<open>run\<close> returns a result triple instead of raising.
\<close>

theorem run_swallows_status_timeout:
  "fst (run (ascii ''echo OK'') 30 (ascii ''utf-8'') (ascii ''strict'')
          (default_driver 1 (scripted_console [Inr echo_ok_reply, Inl TimeoutError])))
     = Inr (Some ([ascii ''OK''], [], - 1))
   \<and> expect_reply (scripted_console [Inr echo_ok_reply, Inl TimeoutError])
         [SendLine (ascii ''echo OK''), Expect (ascii ''nsh> '') (Some 30),
          SendLine (ascii ''echo $?''), Expect (ascii ''nsh> '') (Some 30)]
       = Inl TimeoutError
   \<and> io_log (console (snd (run (ascii ''echo OK'') 30 (ascii ''utf-8'') (ascii ''strict'')
          (default_driver 1 (scripted_console [Inr echo_ok_reply, Inl TimeoutError])))))
       = [SendLine (ascii ''echo OK''), Expect (ascii ''nsh> '') (Some 30),
          SendLine (ascii ''echo $?''), Expect (ascii ''nsh> '') (Some 30)]"
  by (simp add: run_def run_impl_def echo_status_def io_simps captured_echo_ok)

text \<open>
  C8. In the ready state of an active driver, when the first round trip succeeds (the command is sent, the prompt
  is seen, the captured bytes decode), \<open>run\<close> returns a result triple whatever happens in the
  \<^verbatim>\<open>echo $?\<close> round trip: the command's lines, the empty list, and the parsed status or
  \<open>- 1\<close>. In particular, when the second capture has fewer than two lines or its
  second-to-last line is no integer, the status is \<open>- 1\<close>.
\<close>

theorem run_inference_failure_degrades:
  assumes "active s" and "status s = 1" and "sendline cmd (console s) = (Inr (), c1)"
    and "expect (prompt s) (Some timeout) c1 = (Inr bef, c2)"
    and "captured_lines bef = Some ls"
  shows "run cmd timeout codec decodeerrors s
           = (Inr (Some (butlast (tl ls), [],
                         case fst (echo_status timeout (s\<lparr>console := c2\<rparr>)) of
                           Some n \<Rightarrow> n | None \<Rightarrow> - 1)),
              snd (echo_status timeout (s\<lparr>console := c2\<rparr>)))
         \<and> (sendline (ascii ''echo $?'') c2 = (Inr (), c3)
              \<and> expect (prompt s) (Some timeout) c3 = (Inr bef2, c4)
              \<and> captured_lines bef2 = Some ret_data
              \<and> (length ret_data < 2 \<or> py_int (ret_data ! (length ret_data - 2)) = None) \<longrightarrow>
            run cmd timeout codec decodeerrors s
              = (Inr (Some (butlast (tl ls), [], - 1)), s\<lparr>console := c4\<rparr>))"
proof (intro conjI impI)
  show g: "run cmd timeout codec decodeerrors s
           = (Inr (Some (butlast (tl ls), [],
                         case fst (echo_status timeout (s\<lparr>console := c2\<rparr>)) of
                           Some n \<Rightarrow> n | None \<Rightarrow> - 1)),
              snd (echo_status timeout (s\<lparr>console := c2\<rparr>)))"
    using assms by (simp add: run_def run_impl_captured)
  assume a: "sendline (ascii ''echo $?'') c2 = (Inr (), c3)
              \<and> expect (prompt s) (Some timeout) c3 = (Inr bef2, c4)
              \<and> captured_lines bef2 = Some ret_data
              \<and> (length ret_data < 2 \<or> py_int (ret_data ! (length ret_data - 2)) = None)"
  then have "echo_status timeout (s\<lparr>console := c2\<rparr>) = (None, s\<lparr>console := c4\<rparr>)"
    using echo_status_unparsed [of "s\<lparr>console := c2\<rparr>" c3 timeout bef2 c4 ret_data]
    by simp
  with g show "run cmd timeout codec decodeerrors s
              = (Inr (Some (butlast (tl ls), [], - 1)), s\<lparr>console := c4\<rparr>)"
    by simp
qed

theorem run_inference_failure_degrades_witness:
  "run (ascii ''echo OK'') 30 (ascii ''utf-8'') (ascii ''strict'')
       (default_driver 1 (scripted_console [Inr echo_ok_reply, Inr no_status_reply]))
     = (Inr (Some ([ascii ''OK''], [], - 1)),
        default_driver 1 ((scripted_console [Inr echo_ok_reply, Inr no_status_reply])
          \<lparr>io_log := [SendLine (ascii ''echo OK''), Expect (ascii ''nsh> '') (Some 30),
                      SendLine (ascii ''echo $?''), Expect (ascii ''nsh> '') (Some 30)]\<rparr>))
   \<and> py_int ([ascii ''echo $?'', ascii ''$?'', []] ! (length [ascii ''echo $?'', ascii ''$?'', []] - 2)) = None"
  using
    run_inference_failure_degrades
      [where s = "default_driver 1 (scripted_console [Inr echo_ok_reply, Inr no_status_reply])"
         and cmd = "ascii ''echo OK''" and timeout = 30
         and codec = "ascii ''utf-8''" and decodeerrors = "ascii ''strict''"
         and bef = echo_ok_reply and ls = "[ascii ''echo OK'', ascii ''OK'', []]"
         and ?bef2.0 = no_status_reply and ret_data = "[ascii ''echo $?'', ascii ''$?'', []]"
         and ?c1.0 = "(scripted_console [Inr echo_ok_reply, Inr no_status_reply])
            \<lparr>io_log := [SendLine (ascii ''echo OK'')]\<rparr>"
         and ?c2.0 = "(scripted_console [Inr echo_ok_reply, Inr no_status_reply])
            \<lparr>io_log := [SendLine (ascii ''echo OK''), Expect (ascii ''nsh> '') (Some 30)]\<rparr>"
         and ?c3.0 = "(scripted_console [Inr echo_ok_reply, Inr no_status_reply])
            \<lparr>io_log := [SendLine (ascii ''echo OK''), Expect (ascii ''nsh> '') (Some 30),
                        SendLine (ascii ''echo $?'')]\<rparr>"
         and ?c4.0 = "(scripted_console [Inr echo_ok_reply, Inr no_status_reply])
            \<lparr>io_log := [SendLine (ascii ''echo OK''), Expect (ascii ''nsh> '') (Some 30),
                        SendLine (ascii ''echo $?''), Expect (ascii ''nsh> '') (Some 30)]\<rparr>"]
  by (simp add: run_def run_impl_def echo_status_def io_simps captured_echo_ok captured_no_status
      py_int_dollar)

text \<open>
  C10. \<open>run\<close> does not look at \<^verbatim>\<open>codec\<close> and \<^verbatim>\<open>decodeerrors\<close>: two calls that differ only in
  them give the same result and the same driver, console log included. The captured bytes
  are decoded as strict UTF-8 whatever these arguments say: once \<^verbatim>\<open>_run\<close> has captured them,
  bytes that are not well-formed UTF-8 end the call with \<^verbatim>\<open>UnicodeDecodeError\<close>.
\<close>

theorem run_codec_irrelevant:
  "run cmd timeout codec decodeerrors s = run cmd timeout codec' decodeerrors' s
   \<and> (active s \<and> status s = 1 \<and> sendline cmd (console s) = (Inr (), c1)
        \<and> expect (prompt s) (Some timeout) c1 = (Inr bef, c2)
        \<and> decode_utf8 bef = None \<longrightarrow>
      run cmd timeout codec decodeerrors s = (Inl UnicodeDecodeError, s\<lparr>console := c2\<rparr>))"
  by (simp add: run_def run_impl_def captured_lines_def)

theorem run_codec_irrelevant_witness:
  "run (ascii ''echo OK'') 30 (ascii ''latin-1'') (ascii ''ignore'')
       (default_driver 1 (scripted_console [Inr [CHR 0xFF]]))
     = run (ascii ''echo OK'') 30 (ascii ''utf-8'') (ascii ''strict'')
       (default_driver 1 (scripted_console [Inr [CHR 0xFF]]))
   \<and> decode_utf8 [CHR 0xFF] = None
   \<and> run (ascii ''echo OK'') 30 (ascii ''latin-1'') (ascii ''ignore'')
       (default_driver 1 (scripted_console [Inr [CHR 0xFF]]))
     = (Inl UnicodeDecodeError,
        default_driver 1 ((scripted_console [Inr [CHR 0xFF]])
          \<lparr>io_log := [SendLine (ascii ''echo OK''), Expect (ascii ''nsh> '') (Some 30)]\<rparr>))"
  using
    run_codec_irrelevant
      [where s = "default_driver 1 (scripted_console [Inr [CHR 0xFF]])"
         and cmd = "ascii ''echo OK''" and timeout = 30
         and codec = "ascii ''latin-1''" and decodeerrors = "ascii ''ignore''"
         and codec' = "ascii ''utf-8''" and decodeerrors' = "ascii ''strict''"
         and bef = "[CHR 0xFF]"
         and ?c1.0 = "(scripted_console [Inr [CHR 0xFF]])\<lparr>io_log := [SendLine (ascii ''echo OK'')]\<rparr>"
         and ?c2.0 = "(scripted_console [Inr [CHR 0xFF]])
            \<lparr>io_log := [SendLine (ascii ''echo OK''), Expect (ascii ''nsh> '') (Some 30)]\<rparr>"]
  by (simp add: run_def run_impl_def captured_lines_def io_simps decode_invalid)

section \<open>The activation life cycle\<close>

lemma logs_Nil: "logs s [] = s" by (simp add: logs_def)
lemma logs_logs: "logs (logs s ev) ev' = logs s (ev @ ev')" by (simp add: logs_def)

lemma echo_status_frame: "\<exists>ev. snd (echo_status timeout s) = logs s ev"
proof (cases "sendline_reply (console s) (io_log (console s) @ [SendLine (ascii ''echo $?'')])")
  case (Some e)
  then have "snd (echo_status timeout s) = logs s [SendLine (ascii ''echo $?'')]"
    by (simp add: echo_status_def sendline_def logs_def)
  then show ?thesis ..
next
  case None
  then have "snd (echo_status timeout s)
     = logs s [SendLine (ascii ''echo $?''), Expect (prompt s) (Some timeout)]"
    by (simp add: echo_status_def sendline_def expect_def logs_def Let_def split: sum.splits)
  then show ?thesis ..
qed

lemma run_impl_frame: "\<exists>ev. snd (run_impl cmd timeout codec decodeerrors s) = logs s ev"
proof (cases "status s = 1")
  case False
  then have "snd (run_impl cmd timeout codec decodeerrors s) = logs s []"
    by (simp add: run_impl_def logs_Nil)
  then show ?thesis ..
next
  case ready: True
  show ?thesis
  proof (cases "sendline_reply (console s) (io_log (console s) @ [SendLine cmd])")
    case (Some e)
    with ready have "snd (run_impl cmd timeout codec decodeerrors s) = logs s [SendLine cmd]"
      by (simp add: run_impl_def sendline_def logs_def)
    then show ?thesis ..
  next
    case None
    define s2 where "s2 = logs s [SendLine cmd, Expect (prompt s) (Some timeout)]"
    obtain ev where ev: "snd (echo_status timeout s2) = logs s2 ev"
      using echo_status_frame by blast
    have "snd (run_impl cmd timeout codec decodeerrors s) = s2
        \<or> snd (run_impl cmd timeout codec decodeerrors s) = snd (echo_status timeout s2)"
      using ready None
      by (simp add: run_impl_def sendline_def expect_def logs_def s2_def Let_def
          split: sum.splits option.splits prod.splits)
    then show ?thesis
    proof
      assume "snd (run_impl cmd timeout codec decodeerrors s) = s2"
      then show ?thesis unfolding s2_def ..
    next
      assume "snd (run_impl cmd timeout codec decodeerrors s) = snd (echo_status timeout s2)"
      then have "snd (run_impl cmd timeout codec decodeerrors s) = logs s2 ev"
        by (simp add: ev)
      then have "snd (run_impl cmd timeout codec decodeerrors s)
          = logs s ([SendLine cmd, Expect (prompt s) (Some timeout)] @ ev)"
        by (simp only: s2_def logs_logs)
      then show ?thesis ..
    qed
  qed
qed


lemma logs_fields [simp]:
  "status (logs s ev) = status s" "boot_expression (logs s ev) = boot_expression s"
  "login_timeout (logs s ev) = login_timeout s" "prompt (logs s ev) = prompt s"
  "init_commands (logs s ev) = init_commands s" "logged (logs s ev) = logged s"
  "active (logs s ev) = active s"
  "expect_reply (console (logs s ev)) = expect_reply (console s)"
  "sendline_reply (console (logs s ev)) = sendline_reply (console s)"
  "io_log (console (logs s ev)) = io_log (console s) @ ev"
  by (simp_all add: logs_def)

lemma logs_update_commute:
  "logs (s\<lparr>logged := l\<rparr>) ev = (logs s ev)\<lparr>logged := l\<rparr>"
  "logs (s\<lparr>status := st\<rparr>) ev = (logs s ev)\<lparr>status := st\<rparr>"
  by (simp_all add: logs_def)

lemma run_init_frame:
  "\<exists>ev lg. snd (run_init cmds s) = (logs s ev)\<lparr>logged := lg\<rparr>"
proof (induction cmds arbitrary: s)
  case Nil
  have "snd (run_init [] s) = (logs s [])\<lparr>logged := logged s\<rparr>" by (simp add: logs_Nil)
  then show ?case by blast
next
  case (Cons command rest)
  obtain ev where ev: "snd (run_impl command 30 (ascii ''utf-8'') (ascii ''strict'') s) = logs s ev"
    using run_impl_frame by blast
  obtain r s' where rs: "run_impl command 30 (ascii ''utf-8'') (ascii ''strict'') s = (r, s')"
    by (cases "run_impl command 30 (ascii ''utf-8'') (ascii ''strict'') s")
  with ev have s': "s' = logs s ev" by simp
  show ?case
  proof (cases r)
    case (Inl e)
    with rs s' have "snd (run_init (command # rest) s) = (logs s ev)\<lparr>logged := logged s\<rparr>"
      by simp
    then show ?thesis by blast
  next
    case (Inr res)
    show ?thesis
    proof (cases res)
      case None
      with Inr rs s' have "snd (run_init (command # rest) s) = (logs s ev)\<lparr>logged := logged s\<rparr>"
        by simp
      then show ?thesis by blast
    next
      case (Some t)
      obtain out aux err where t: "t = (out, aux, err)" by (cases t)
      define s2 where "s2 = (if err \<noteq> 0 then s'\<lparr>logged := logged s' @ [(err, out)]\<rparr> else s')"
      from Cons.IH [of s2] obtain ev' lg where
        ih: "snd (run_init rest s2) = (logs s2 ev')\<lparr>logged := lg\<rparr>" by blast
      have "logs s2 ev' = (logs s (ev @ ev'))\<lparr>logged := logged s2\<rparr>"
        by (simp add: s2_def s' logs_update_commute logs_logs)
      with ih have "snd (run_init rest s2) = (logs s (ev @ ev'))\<lparr>logged := lg\<rparr>" by simp
      moreover have "run_init (command # rest) s = run_init rest s2"
        using rs Inr Some t by (simp add: s2_def)
      ultimately show ?thesis by metis
    qed
  qed
qed


lemma boot_matchedI:
  "i < length (io_log (console s)) \<Longrightarrow>
   io_log (console s) ! i = Expect (boot_expression s) (Some (login_timeout s)) \<Longrightarrow>
   \<not> isl (expect_reply (console s) (take (Suc i) (io_log (console s)))) \<Longrightarrow>
   boot_matched s"
  by (auto simp add: boot_matched_def list_ex_iff)

lemma boot_matched_logs: "boot_matched s \<Longrightarrow> boot_matched (logs s ev)"
proof -
  assume "boot_matched s"
  then obtain i where i: "i < length (io_log (console s))"
    "io_log (console s) ! i = Expect (boot_expression s) (Some (login_timeout s))"
    "\<not> isl (expect_reply (console s) (take (Suc i) (io_log (console s))))"
    by (auto simp add: boot_matched_def list_ex_iff)
  then show ?thesis
    by (intro boot_matchedI [of i]) (simp_all add: nth_append)
qed

lemma boot_matched_update [simp]:
  "boot_matched (s\<lparr>logged := l\<rparr>) = boot_matched s"
  "boot_matched (s\<lparr>status := st\<rparr>) = boot_matched s"
  "boot_matched (s\<lparr>active := b\<rparr>) = boot_matched s"
  by (simp_all add: boot_matched_def)

lemma await_prompt_boot_raises:
  "expect_reply (console s) (io_log (console s) @ [Expect (boot_expression s) (Some (login_timeout s))]) = Inl e
   \<Longrightarrow> await_prompt s = (Inl e, logs s [Expect (boot_expression s) (Some (login_timeout s))])"
  by (simp add: await_prompt_def expect_def logs_def)

lemma await_prompt_boot_matches:
  assumes "expect_reply (console s) (io_log (console s) @ [Expect (boot_expression s) (Some (login_timeout s))]) = Inr b"
  shows "\<exists>ev lg. snd (await_prompt s)
           = (logs s (Expect (boot_expression s) (Some (login_timeout s)) # ev))\<lparr>status := 1, logged := lg\<rparr>"
proof -
  let ?boot = "Expect (boot_expression s) (Some (login_timeout s))"
  define s2 where "s2 = s\<lparr>status := 1,
      console := (console s)\<lparr>io_log := io_log (console s) @ [?boot, Expect (prompt s) None]\<rparr>\<rparr>"
  have s2: "s2 = (logs s [?boot, Expect (prompt s) None])\<lparr>status := 1\<rparr>"
    by (cases s) (simp add: s2_def logs_def)
  show ?thesis
  proof (cases "expect_reply (console s) (io_log (console s) @ [?boot, Expect (prompt s) None])")
    case (Inl e)
    with assms have "snd (await_prompt s) = s2"
      by (simp add: await_prompt_def expect_def Let_def s2_def)
    then have "snd (await_prompt s)
        = (logs s (?boot # [Expect (prompt s) None]))\<lparr>status := 1, logged := logged s\<rparr>"
      by (simp add: s2)
    then show ?thesis by blast
  next
    case (Inr b')
    with assms have "snd (await_prompt s) = snd (run_init (init_commands s) s2)"
      by (simp add: await_prompt_def expect_def Let_def s2_def)
    moreover obtain ev lg where "snd (run_init (init_commands s) s2) = (logs s2 ev)\<lparr>logged := lg\<rparr>"
      using run_init_frame by blast
    moreover have "logs s2 ev = (logs s (?boot # Expect (prompt s) None # ev))\<lparr>status := 1\<rparr>"
      by (simp add: s2 logs_update_commute [symmetric] logs_logs)
    ultimately have "snd (await_prompt s)
        = (logs s (?boot # Expect (prompt s) None # ev))\<lparr>status := 1, logged := lg\<rparr>"
      by simp
    then show ?thesis by blast
  qed
qed

lemma await_prompt_invariant:
  assumes "status s = 0"
  shows "(status (snd (await_prompt s)) = 0 \<or> status (snd (await_prompt s)) = 1)
         \<and> (status (snd (await_prompt s)) = 1 \<longrightarrow> boot_matched (snd (await_prompt s)))"
proof (cases "expect_reply (console s) (io_log (console s) @ [Expect (boot_expression s) (Some (login_timeout s))])")
  case (Inl e)
  with assms show ?thesis by (simp add: await_prompt_boot_raises)
next
  case (Inr b)
  let ?boot = "Expect (boot_expression s) (Some (login_timeout s))"
  from await_prompt_boot_matches [OF Inr] obtain ev lg where
    s': "snd (await_prompt s) = (logs s (?boot # ev))\<lparr>status := 1, logged := lg\<rparr>" by blast
  have "boot_matched (logs s (?boot # ev))"
    by (rule boot_matchedI [of "length (io_log (console s))"]) (simp_all add: Inr)
  then show ?thesis by (simp add: s')
qed

lemma do_call_invariant:
  assumes "status s = 0 \<or> status s = 1" and "status s = 1 \<longrightarrow> boot_matched s"
  shows "(status (do_call c s) = 0 \<or> status (do_call c s) = 1)
         \<and> (status (do_call c s) = 1 \<longrightarrow> boot_matched (do_call c s))"
proof (cases c)
  case Activate
  show ?thesis
  proof (cases "status s = 0")
    case True
    then show ?thesis using await_prompt_invariant [of s] by (simp add: Activate on_activate_def)
  next
    case False
    with assms show ?thesis by (simp add: Activate on_activate_def)
  qed
next
  case Deactivate
  then show ?thesis by (simp add: on_deactivate_def)
next
  case (Run cmd timeout codec decodeerrors)
  obtain ev where "snd (run_impl cmd timeout codec decodeerrors s) = logs s ev"
    using run_impl_frame by blast
  with assms show ?thesis by (auto simp add: Run run_def boot_matched_logs)
next
  case (Bind b)
  with assms show ?thesis by simp
qed

lemma after_calls_invariant:
  "status s = 0 \<or> status s = 1 \<Longrightarrow> (status s = 1 \<longrightarrow> boot_matched s) \<Longrightarrow>
   (status (after_calls cs s) = 0 \<or> status (after_calls cs s) = 1)
   \<and> (status (after_calls cs s) = 1 \<longrightarrow> boot_matched (after_calls cs s))"
proof (induction cs arbitrary: s)
  case Nil
  then show ?case by simp
next
  case (Cons c cs)
  from do_call_invariant [OF Cons.prems, of c] show ?case
    by (simp add: Cons.IH)
qed

text \<open>
  C2, as amended. A driver starts with status 0. After any sequence of calls, with the
  framework writing the binding state at any point in between, its status is 0 or 1, and it
  is 1 (ready) only if a wait for the boot expression has matched. If the wait for the boot
  expression of \<open>on_activate\<close> ends with \<^verbatim>\<open>TimeoutError\<close>, the call ends with that error and
  the status stays 0.
\<close>

theorem ready_only_after_boot_match:
  assumes "status s0 = 0"
  shows "(status (after_calls cs s0) = 0 \<or> status (after_calls cs s0) = 1)
         \<and> (status (after_calls cs s0) = 1 \<longrightarrow> boot_matched (after_calls cs s0))
         \<and> (status s = 0
              \<and> fst (expect (boot_expression s) (Some (login_timeout s)) (console s))
                  = Inl TimeoutError \<longrightarrow>
            fst (on_activate s) = Inl TimeoutError \<and> status (snd (on_activate s)) = 0)"
proof -
  have "status s = 0
        \<and> fst (expect (boot_expression s) (Some (login_timeout s)) (console s)) = Inl TimeoutError
        \<longrightarrow> fst (on_activate s) = Inl TimeoutError \<and> status (snd (on_activate s)) = 0"
    by (simp add: on_activate_def await_prompt_def expect_def Let_def)
  with after_calls_invariant [of s0 cs] assms show ?thesis by simp
qed

theorem ready_only_after_boot_match_witness:
  "status (default_driver 0 booted_console) = 0
   \<and> status (after_calls [Activate, Bind True, Run (ascii ''echo OK'') 30 (ascii ''utf-8'') (ascii ''strict'')]
        (default_driver 0 booted_console)) = 1
   \<and> boot_matched (after_calls [Activate, Bind True, Run (ascii ''echo OK'') 30 (ascii ''utf-8'') (ascii ''strict'')]
        (default_driver 0 booted_console))
   \<and> fst (expect (boot_expression (default_driver 0 (scripted_console [])))
             (Some (login_timeout (default_driver 0 (scripted_console []))))
             (console (default_driver 0 (scripted_console [])))) = Inl TimeoutError
   \<and> fst (on_activate (default_driver 0 (scripted_console []))) = Inl TimeoutError
   \<and> status (snd (on_activate (default_driver 0 (scripted_console [])))) = 0"
proof -
  have a: "after_calls [Activate, Bind True, Run (ascii ''echo OK'') 30 (ascii ''utf-8'') (ascii ''strict'')]
        (default_driver 0 booted_console)
     = default_driver 1 (booted_console
          \<lparr>io_log := [Expect (boot_expression (default_driver 0 booted_console)) (Some 60),
                      Expect (ascii ''nsh> '') None,
                      SendLine (ascii ''echo OK''), Expect (ascii ''nsh> '') (Some 30)]\<rparr>)"
    by (simp add: activate_booted) (simp add: run_def run_impl_def booted_console_def io_simps)
  have b: "status (default_driver 0 booted_console) = 0" by (simp add: default_driver_def)
  have c: "fst (expect (boot_expression (default_driver 0 (scripted_console [])))
             (Some (login_timeout (default_driver 0 (scripted_console []))))
             (console (default_driver 0 (scripted_console [])))) = Inl TimeoutError"
    by (simp add: io_simps)
  have d: "status (default_driver 0 (scripted_console [])) = 0" by (simp add: default_driver_def)
  from ready_only_after_boot_match [OF b,
      of "[Activate, Bind True, Run (ascii ''echo OK'') 30 (ascii ''utf-8'') (ascii ''strict'')]"
         "default_driver 0 (scripted_console [])"] a b c d
  show ?thesis by (simp add: default_driver_def)
qed

text \<open>
  C2 as stated fails: the status becomes 1 as soon as the boot expression has matched, before
  the wait for the prompt and before the init commands, which run through \<^verbatim>\<open>_run\<close> and need
  the status to be 1. In the first run below the wait for the prompt ends with
  \<^verbatim>\<open>TimeoutError\<close>, in the second the init command \<^verbatim>\<open>echo OK\<close> does; both times
  \<open>on_activate\<close> ends with the error and the status is 1.
\<close>

theorem activate_timeout_leaves_ready:
  "fst (on_activate (default_driver 0 (scripted_console [Inr [], Inl TimeoutError])))
     = Inl TimeoutError
   \<and> status (snd (on_activate (default_driver 0 (scripted_console [Inr [], Inl TimeoutError]))))
     = 1
   \<and> io_log (console (snd (on_activate
        (default_driver 0 (scripted_console [Inr [], Inl TimeoutError])))))
     = [Expect (boot_expression (default_driver 0 (scripted_console [Inr [], Inl TimeoutError])))
          (Some 60),
        Expect (ascii ''nsh> '') None]
   \<and> fst (on_activate ((default_driver 0 booted_console)\<lparr>init_commands := [ascii ''echo OK'']\<rparr>))
     = Inl TimeoutError
   \<and> status (snd (on_activate
        ((default_driver 0 booted_console)\<lparr>init_commands := [ascii ''echo OK'']\<rparr>)))
     = 1"
  by (simp add: on_activate_def await_prompt_def run_impl_def booted_console_def io_simps)

lemma on_activate_success_ready:
  assumes "status s = 0" and "fst (on_activate s) = Inr ()"
  shows "status (snd (on_activate s)) = 1"
proof (cases "expect_reply (console s) (io_log (console s) @ [Expect (boot_expression s) (Some (login_timeout s))])")
  case (Inl e)
  with assms show ?thesis by (simp add: on_activate_def await_prompt_boot_raises)
next
  case (Inr b)
  from await_prompt_boot_matches [OF Inr] assms(1) show ?thesis
    by (auto simp add: on_activate_def)
qed

text \<open>
  C9. \<open>on_activate\<close> in the ready state (status 1) does nothing: it returns normally and the
  driver, the console's log included, is unchanged. An activation that succeeds leaves the
  status at 1, so a second activation right after it reaches the console no more and the init
  commands are not run again.
\<close>

theorem on_activate_ready_noop:
  "(status s = 1 \<longrightarrow>
      on_activate s = (Inr (), s)
      \<and> io_log (console (snd (on_activate s))) = io_log (console s))
   \<and> (status s = 0 \<and> fst (on_activate s) = Inr () \<longrightarrow>
        on_activate (snd (on_activate s)) = (Inr (), snd (on_activate s)))"
proof (intro conjI impI)
  assume "status s = 0 \<and> fst (on_activate s) = Inr ()"
  then have "status (snd (on_activate s)) = 1" by (simp add: on_activate_success_ready)
  then show "on_activate (snd (on_activate s)) = (Inr (), snd (on_activate s))"
    by (simp add: on_activate_def)
qed (simp_all add: on_activate_def)

theorem on_activate_ready_noop_witness:
  "status (default_driver 1 booted_console) = 1
   \<and> on_activate (default_driver 1 booted_console) = (Inr (), default_driver 1 booted_console)
   \<and> status (default_driver 0 booted_console) = 0
   \<and> fst (on_activate (default_driver 0 booted_console)) = Inr ()
   \<and> on_activate (snd (on_activate (default_driver 0 booted_console)))
       = (Inr (), snd (on_activate (default_driver 0 booted_console)))"
  using on_activate_ready_noop [of "default_driver 1 booted_console"]
    on_activate_ready_noop [of "default_driver 0 booted_console"]
  by (simp add: activate_booted) (simp add: default_driver_def)

end
